theory Spec2Isabelle
  imports Main
begin

section \<open>goCheckAmi: the discovery pipeline of app.go\<close>

text \<open>
  A shallow embedding of \<^verbatim>\<open>app.go\<close>: the endpoint lookup
  \<^verbatim>\<open>getEndpointFromConfig\<close> and the method \<^verbatim>\<open>Processing\<close>
  (authentication with the single SSO retry, the filter normalisation, the SSM parameter
  listing and the EC2 instance walk). Go strings are byte sequences, as \<^typ>\<open>string\<close> is.
\<close>

subsection \<open>The two functions of package strings that the code calls\<close>

text \<open>
  \<^verbatim>\<open>strings.HasSuffix(s, suffix)\<close> is
  \<^verbatim>\<open>len(s) >= len(suffix) && s[len(s)-len(suffix):] == suffix\<close>, and
  \<^verbatim>\<open>strings.TrimSuffix\<close> removes the suffix once when it is there.
\<close>

definition HasSuffix :: "string \<Rightarrow> string \<Rightarrow> bool" where
  "HasSuffix s suffix =
     (length suffix \<le> length s \<and> drop (length s - length suffix) s = suffix)"

definition TrimSuffix :: "string \<Rightarrow> string \<Rightarrow> string" where
  "TrimSuffix s suffix =
     (if HasSuffix s suffix then take (length s - length suffix) s else s)"

subsection \<open>Filter normalisation (app.go, lines 199 to 227)\<close>

text \<open>
  \<^verbatim>\<open>
  cleanFilter := strings.TrimSuffix(filter, "*")
  searchFilter := cleanFilter
  if !strings.HasSuffix(searchFilter, "*") { }          // empty body
  if !strings.HasSuffix(searchFilter, "*") { searchFilter = searchFilter + "*" }
  \<close>
\<close>

definition searchFilter :: "string \<Rightarrow> string" where
  "searchFilter fltr =
     (let cleanFilter = TrimSuffix fltr ''*'';
          search = cleanFilter
      in if \<not> HasSuffix search ''*'' then search @ ''*'' else search)"

text \<open>
  The rule in the words of the specification, to be compared with the code: strip at most
  one trailing wildcard marker, then append exactly one.
\<close>

definition stripOneTrailing :: "string \<Rightarrow> string" where
  "stripOneTrailing F = (if F \<noteq> [] \<and> last F = CHR ''*'' then butlast F else F)"

definition normalizeSpec :: "string \<Rightarrow> string" where
  "normalizeSpec F = stripOneTrailing F @ ''*''"

text \<open>The number of wildcard markers a string ends with.\<close>

definition trailingWildcards :: "string \<Rightarrow> nat" where
  "trailingWildcards s = length (takeWhile (\<lambda>c. c = CHR ''*'') (rev s))"

definition beginsWithWildcard :: "string \<Rightarrow> bool" where
  "beginsWithWildcard s = (case s of [] \<Rightarrow> False | c # _ \<Rightarrow> c = CHR ''*'')"

text \<open>
  An internal wildcard marker: one that is left when the leading and the trailing markers
  are taken away.
\<close>

definition hasInternalWildcard :: "string \<Rightarrow> bool" where
  "hasInternalWildcard s =
     (CHR ''*'' \<in> set (dropWhile (\<lambda>c. c = CHR ''*'')
                        (rev (dropWhile (\<lambda>c. c = CHR ''*'') (rev s)))))"

subsection \<open>Errors\<close>

text \<open>
  An error is either a value handed back by the SDK, the ini package or the operating
  system (opaque here, known by its message), or one built by
  \<^verbatim>\<open>fmt.Errorf(format, operands...)\<close>, kept as the format literal and its
  operands. \<^verbatim>\<open>fmt.Errorf\<close> gives the new error an \<^verbatim>\<open>Unwrap\<close> method
  returning the operand of a \<^verbatim>\<open>%w\<close> verb; an operand printed with
  \<^verbatim>\<open>%v\<close> only contributes its text. \<open>verbs\<close> reads the verbs of a format
  that uses no flags or widths (none in app.go does); \<^verbatim>\<open>%%\<close> is a literal.
\<close>

datatype error = LibError string | Errorf string "arg list"
  and arg = ArgStr string | ArgErr error

fun verbs :: "string \<Rightarrow> char list" where
  "verbs (a # b # r) =
     (if a = CHR ''%'' then (if b = CHR ''%'' then verbs r else b # verbs r)
      else verbs (b # r))"
| "verbs _ = []"

definition Unwrap :: "error \<Rightarrow> error option" where
  "Unwrap e =
     (case e of
        LibError _ \<Rightarrow> None
      | Errorf format operands \<Rightarrow>
          (case map snd (filter (\<lambda>(v, x). v = CHR ''w'') (zip (verbs format) operands)) of
             [ArgErr w] \<Rightarrow> Some w
           | _ \<Rightarrow> None))"

subsection \<open>Data\<close>

text \<open>The two structs of app.go.\<close>

record EC2Instance =
  Name :: string
  AMI :: string

record AWSResult =
  Parameters :: "string list"
  Instances :: "EC2Instance list"

text \<open>
  The SDK's types, as far as the code reads them. A Go \<^verbatim>\<open>*string\<close> is a
  \<^typ>\<open>string option\<close>, \<open>None\<close> for nil. The fields \<^verbatim>\<open>Name\<close>,
  \<^verbatim>\<open>Parameters\<close> and \<^verbatim>\<open>Instances\<close> of the SDK, whose names the
  structs above have taken, carry a prefix.
\<close>

record ParameterMetadata =
  ParameterName :: "string option"

record DescribeParametersOutput =
  PageParameters :: "ParameterMetadata list"

record Tag =
  Key :: "string option"
  Value :: "string option"

record Instance =
  Tags :: "Tag list"
  ImageId :: "string option"

record Reservation =
  ReservationInstances :: "Instance list"

record DescribeInstancesOutput =
  Reservations :: "Reservation list"

record Endpoint =
  URL :: string
  SigningRegion :: string

record Credentials =
  AccessKeyID :: string
  SecretAccessKey :: string
  SessionToken :: string
  Source :: string

datatype load_option =
    WithSharedConfigProfile string
  | WithEndpointResolverWithOptions "string \<Rightarrow> string \<Rightarrow> Endpoint"
  | WithCredentialsProvider Credentials

text \<open>
  Modelled from the spec: the ini file, read through \<^verbatim>\<open>gopkg.in/ini.v1\<close>,
  which is not part of the repository: "sections keyed by profile, each a flat key/value
  mapping". \<^verbatim>\<open>cfg.Section(name)\<close> gives an empty section when the file has none
  of that name.
\<close>

type_synonym ini_section = "string \<rightharpoonup> string"
type_synonym ini_file = "string \<rightharpoonup> ini_section"

definition Section :: "ini_file \<Rightarrow> string \<Rightarrow> ini_section" where
  "Section cfg name = (case cfg name of None \<Rightarrow> Map.empty | Some s \<Rightarrow> s)"

definition HasKey :: "ini_section \<Rightarrow> string \<Rightarrow> bool" where
  "HasKey s k = (s k \<noteq> None)"

definition KeyString :: "ini_section \<Rightarrow> string \<Rightarrow> string" where
  "KeyString s k = (case s k of None \<Rightarrow> [] | Some v \<Rightarrow> v)"

subsection \<open>The world around a run\<close>

text \<open>
  Every call that leaves the program is a field of the environment, so that its outcome
  is an input of the model: an \<open>error + 'a\<close> for Go's \<^verbatim>\<open>(value, err)\<close>, an
  \<^typ>\<open>error option\<close> for a lone \<^verbatim>\<open>err\<close>. \<open>'c\<close> is the SDK's
  \<^verbatim>\<open>aws.Config\<close>. \<open>LoadDefaultConfig\<close> also takes the number of earlier
  loads of the run, since the reload after a login may answer differently.
\<close>

text \<open>
  Modelled from the spec: the SDK's paginators, which are not part of the repository, as
  "a lazy, finite, non-restartable sequence abstraction over fetch next page". The fields
  \<open>DescribeParametersPages\<close> and \<open>DescribeInstancesPages\<close> give, for a configuration
  (and a name filter), the list of the outcomes of the successive
  \<^verbatim>\<open>NextPage\<close> calls; \<^verbatim>\<open>HasMorePages\<close> holds while the list is not
  empty.
\<close>

record 'c env =
  UserHomeDir :: "error + string"
  Join :: "string list \<Rightarrow> string"
  iniLoad :: "string \<Rightarrow> error + ini_file"
  LoadDefaultConfig :: "nat \<Rightarrow> load_option list \<Rightarrow> error + 'c"
  GetCallerIdentity :: "'c \<Rightarrow> error option"
  LookPath :: "string \<Rightarrow> error + string"
  Run :: "string list \<Rightarrow> error option"
  DescribeParametersPages :: "'c \<Rightarrow> string \<Rightarrow> (error + DescribeParametersOutput) list"
  DescribeInstancesPages :: "'c \<Rightarrow> (error + DescribeInstancesOutput) list"

text \<open>
  What a run does to the world, in order: configuration loads, the identity check, the log
  line, the search for the login tool, the login subprocess (with its argument vector) and
  the request of the parameter listing (with its name filter).
\<close>

datatype event =
    CallLoadDefaultConfig "load_option list"
  | CallGetCallerIdentity
  | LogPrintf string "arg list"
  | CallLookPath string
  | CallRun "string list"
  | NewDescribeParametersPaginator string

text \<open>
  A call of \<^verbatim>\<open>Processing\<close> either returns its pair
  \<^verbatim>\<open>(*AWSResult, error)\<close> or panics (a nil pointer dereference).
\<close>

datatype outcome = Return "AWSResult option" "error option" | Panic

subsection \<open>getEndpointFromConfig (app.go, lines 48 to 77)\<close>

definition getEndpointFromConfig :: "'c env \<Rightarrow> string \<Rightarrow> string" where
  "getEndpointFromConfig env profile =
     (case UserHomeDir env of
        Inl err \<Rightarrow> []
      | Inr home \<Rightarrow>
          (let cfgPath = Join env [home, ''.aws'', ''config'']
           in case iniLoad env cfgPath of
                Inl err \<Rightarrow> []
              | Inr cfg \<Rightarrow>
                  (let sectionName =
                         (if profile = ''default'' then ''default'' else ''profile '' @ profile);
                       section0 = Section cfg sectionName;
                       section1 =
                         (if \<not> HasKey section0 ''endpoint_url'' then Section cfg profile
                          else section0)
                   in if HasKey section1 ''endpoint_url''
                      then KeyString section1 ''endpoint_url'' else [])))"

subsection \<open>Processing, steps 0 to 2: configuration and identity (lines 123 to 187)\<close>

definition resolver :: "string \<Rightarrow> string \<Rightarrow> string \<Rightarrow> Endpoint" where
  "resolver endpointURL service region = \<lparr>URL = endpointURL, SigningRegion = region\<rparr>"

definition loadOpts :: "string \<Rightarrow> string \<Rightarrow> load_option list" where
  "loadOpts profile endpointURL =
     [WithSharedConfigProfile profile] @
     (if endpointURL \<noteq> []
      then [WithEndpointResolverWithOptions (resolver endpointURL),
            WithCredentialsProvider
              \<lparr>AccessKeyID = ''test'', SecretAccessKey = ''test'', SessionToken = ''test'',
               Source = ''HardcodedLocalStackCredentials''\<rparr>]
      else [])"

text \<open>
  The result is \<open>Inl\<close> of what \<^verbatim>\<open>Processing\<close> returns when it returns in
  these steps, and \<open>Inr\<close> of the configuration that step 3 goes on with; the second
  component is the trace of the steps.
\<close>

definition authenticate :: "'c env \<Rightarrow> string \<Rightarrow> (outcome + 'c) \<times> event list" where
  "authenticate env profile =
     (let endpointURL = getEndpointFromConfig env profile;
          opts = loadOpts profile endpointURL;
          t1 = [CallLoadDefaultConfig opts]
      in case LoadDefaultConfig env 0 opts of
           Inl err \<Rightarrow>
             (Inl (Return None (Some (Errorf ''unable to load SDK config: %v'' [ArgErr err]))),
              t1)
         | Inr cfg \<Rightarrow>
             (let t2 = t1 @ [CallGetCallerIdentity]
              in case GetCallerIdentity env cfg of
                   None \<Rightarrow> (Inr cfg, t2)
                 | Some err \<Rightarrow>
                     if endpointURL \<noteq> []
                     then (Inl (Return None (Some (Errorf
                             ''failed to validate identity with custom endpoint %q: %w. Ensure LocalStack is running and credentials are configured''
                             [ArgStr endpointURL, ArgErr err]))), t2)
                     else
                       (let t3 = t2 @
                              [LogPrintf
                                 ''Token invalid or expired. Attempting SSO login for profile: %s''
                                 [ArgStr profile],
                               CallLookPath ''aws'']
                        in case LookPath env ''aws'' of
                             Inl pathErr \<Rightarrow>
                               (Inl (Return None (Some (Errorf
                                  ''aws cli not found in PATH, cannot perform sso login: %w''
                                  [ArgErr err]))), t3)
                           | Inr path \<Rightarrow>
                               (let argv = [''aws'', ''sso'', ''login'', ''--profile'', profile];
                                    t4 = t3 @ [CallRun argv]
                                in case Run env argv of
                                     Some runErr \<Rightarrow>
                                       (Inl (Return None (Some (Errorf
                                          ''aws sso login failed: %w'' [ArgErr runErr]))), t4)
                                   | None \<Rightarrow>
                                       (let t5 = t4 @ [CallLoadDefaultConfig opts]
                                        in case LoadDefaultConfig env 1 opts of
                                             Inl err' \<Rightarrow>
                                               (Inl (Return None (Some (Errorf
                                                  ''unable to reload SDK config after login: %v''
                                                  [ArgErr err']))), t5)
                                           | Inr cfg' \<Rightarrow> (Inr cfg', t5))))))"

subsection \<open>Processing, step 3: the parameter listing (lines 238 to 249)\<close>

text \<open>
  \<^verbatim>\<open>for _, p := range page.Parameters { if p.Name != nil { params = append(params, *p.Name) } }\<close>
\<close>

fun appendNames :: "ParameterMetadata list \<Rightarrow> string list \<Rightarrow> string list" where
  "appendNames [] params = params"
| "appendNames (p # ps) params =
     appendNames ps (case ParameterName p of None \<Rightarrow> params | Some n \<Rightarrow> params @ [n])"

text \<open>
  \<^verbatim>\<open>for paginator.HasMorePages() { page, err := paginator.NextPage(a.ctx); if err != nil { return nil, ... } ... }\<close>
  \<open>Inl\<close> is the return out of \<^verbatim>\<open>Processing\<close>, \<open>Inr\<close> the value of
  \<^verbatim>\<open>params\<close> after the loop.
\<close>

fun listParams ::
  "(error + DescribeParametersOutput) list \<Rightarrow> string list \<Rightarrow> outcome + string list" where
  "listParams [] params = Inr params"
| "listParams (Inl err # rest) params =
     Inl (Return None (Some (Errorf ''failed to list params: %w'' [ArgErr err])))"
| "listParams (Inr page # rest) params =
     listParams rest (appendNames (PageParameters page) params)"

subsection \<open>Processing, step 4: the instance walk (lines 256 to 280)\<close>

text \<open>
  \<^verbatim>\<open>
  var name string
  for _, tag := range inst.Tags { if *tag.Key == "Name" { name = *tag.Value; break } }
  \<close>
  Both dereferences panic on nil.
\<close>

fun tagLoop :: "Tag list \<Rightarrow> string \<Rightarrow> outcome + string" where
  "tagLoop [] name = Inr name"
| "tagLoop (tag # tags) name =
     (case Key tag of
        None \<Rightarrow> Inl Panic
      | Some k \<Rightarrow>
          if k = ''Name''
          then (case Value tag of None \<Rightarrow> Inl Panic | Some v \<Rightarrow> Inr v)
          else tagLoop tags name)"

fun instLoop :: "Instance list \<Rightarrow> EC2Instance list \<Rightarrow> outcome + EC2Instance list" where
  "instLoop [] instances = Inr instances"
| "instLoop (inst # insts) instances =
     (case tagLoop (Tags inst) [] of
        Inl out \<Rightarrow> Inl out
      | Inr name \<Rightarrow>
          (let ami = (case ImageId inst of None \<Rightarrow> [] | Some i \<Rightarrow> i)
           in instLoop insts (instances @ [\<lparr>Name = name, AMI = ami\<rparr>])))"

fun resLoop :: "Reservation list \<Rightarrow> EC2Instance list \<Rightarrow> outcome + EC2Instance list" where
  "resLoop [] instances = Inr instances"
| "resLoop (res # ress) instances =
     (case instLoop (ReservationInstances res) instances of
        Inl out \<Rightarrow> Inl out
      | Inr instances' \<Rightarrow> resLoop ress instances')"

fun describeInstances ::
  "(error + DescribeInstancesOutput) list \<Rightarrow> EC2Instance list \<Rightarrow> outcome + EC2Instance list"
  where
  "describeInstances [] instances = Inr instances"
| "describeInstances (Inl err # rest) instances =
     Inl (Return None (Some (Errorf ''failed to describe instances: %w'' [ArgErr err])))"
| "describeInstances (Inr page # rest) instances =
     (case resLoop (Reservations page) instances of
        Inl out \<Rightarrow> Inl out
      | Inr instances' \<Rightarrow> describeInstances rest instances')"

subsection \<open>Processing (lines 121 to 284)\<close>

definition Processing :: "'c env \<Rightarrow> string \<Rightarrow> string \<Rightarrow> outcome \<times> event list" where
  "Processing env profile fltr =
     (case authenticate env profile of
        (Inl out, tr) \<Rightarrow> (out, tr)
      | (Inr cfg, tr) \<Rightarrow>
          (let search = searchFilter fltr;
               tr' = tr @ [NewDescribeParametersPaginator search]
           in case listParams (DescribeParametersPages env cfg search) [] of
                Inl out \<Rightarrow> (out, tr')
              | Inr params \<Rightarrow>
                  (case describeInstances (DescribeInstancesPages env cfg) [] of
                     Inl out \<Rightarrow> (out, tr')
                   | Inr instances \<Rightarrow>
                       (Return (Some \<lparr>Parameters = params, Instances = instances\<rparr>) None,
                        tr'))))"

subsection \<open>Notions of the specification\<close>

text \<open>
  The endpoint lookup as the specification words it: an ordered pair of lookup attempts,
  first the section named by prefixing the profile name (unprefixed for the profile
  "default"), then the section named by the bare profile name.
\<close>

definition overrideIn :: "ini_file \<Rightarrow> string \<Rightarrow> string option" where
  "overrideIn cfg name = (case cfg name of None \<Rightarrow> None | Some s \<Rightarrow> s ''endpoint_url'')"

definition prefixedSection :: "string \<Rightarrow> string" where
  "prefixedSection profile =
     (if profile = ''default'' then ''default'' else ''profile '' @ profile)"

definition resolveOrdered :: "ini_file \<Rightarrow> string \<Rightarrow> string" where
  "resolveOrdered cfg profile =
     (case overrideIn cfg (prefixedSection profile) of
        Some v \<Rightarrow> v
      | None \<Rightarrow> (case overrideIn cfg profile of Some v \<Rightarrow> v | None \<Rightarrow> []))"

text \<open>Counting in a trace: login subprocesses and configuration loads.\<close>

fun isRun :: "event \<Rightarrow> bool" where
  "isRun (CallRun argv) = True"
| "isRun _ = False"

fun isLoad :: "event \<Rightarrow> bool" where
  "isLoad (CallLoadDefaultConfig opts) = True"
| "isLoad _ = False"

definition logins :: "event list \<Rightarrow> nat" where
  "logins tr = length (filter isRun tr)"

definition loads :: "event list \<Rightarrow> nat" where
  "loads tr = length (filter isLoad tr)"

text \<open>The names of a sequence of pages: those present, in page and item order.\<close>

definition pageNames :: "DescribeParametersOutput \<Rightarrow> string list" where
  "pageNames page = List.map_filter ParameterName (PageParameters page)"

definition allNames :: "DescribeParametersOutput list \<Rightarrow> string list" where
  "allNames pages = concat (map pageNames pages)"

text \<open>The instances of a sequence of pages, in page, reservation and instance order.\<close>

definition pageInstances :: "DescribeInstancesOutput \<Rightarrow> Instance list" where
  "pageInstances page = concat (map ReservationInstances (Reservations page))"

definition allInstances :: "DescribeInstancesOutput list \<Rightarrow> Instance list" where
  "allInstances pages = concat (map pageInstances pages)"

text \<open>
  A record is the projection of an instance: its name is the value of the first tag whose
  key is "Name", or empty without such a tag; its AMI is the image reference, or empty.
\<close>

definition projects :: "Instance \<Rightarrow> EC2Instance \<Rightarrow> bool" where
  "projects inst r =
     ((case find (\<lambda>t. Key t = Some ''Name'') (Tags inst) of
         None \<Rightarrow> Name r = []
       | Some t \<Rightarrow> Value t = Some (Name r))
      \<and> AMI r = (case ImageId inst of None \<Rightarrow> [] | Some i \<Rightarrow> i))"

text \<open>
  The precondition on tags: every key present, and every "Name" tag with a value.
\<close>

definition wellTagged :: "Instance \<Rightarrow> bool" where
  "wellTagged inst =
     list_all (\<lambda>t. Key t \<noteq> None \<and> (Key t = Some ''Name'' \<longrightarrow> Value t \<noteq> None)) (Tags inst)"

text \<open>
  An instance on which the tag scan faults: the first tag whose key is absent or equal to
  "Name" has an absent key or an absent value.
\<close>

definition tagsFault :: "Tag list \<Rightarrow> bool" where
  "tagsFault tags =
     (case dropWhile (\<lambda>t. Key t \<noteq> None \<and> Key t \<noteq> Some ''Name'') tags of
        [] \<Rightarrow> False
      | t # _ \<Rightarrow> Key t = None \<or> Value t = None)"

definition instFaults :: "Instance \<Rightarrow> bool" where
  "instFaults inst = tagsFault (Tags inst)"

text \<open>The pages that come before the first failed fetch.\<close>

fun beforeFailure :: "(error + 'a) list \<Rightarrow> 'a list" where
  "beforeFailure (Inr page # rest) = page # beforeFailure rest"
| "beforeFailure _ = []"

subsection \<open>A concrete world\<close>

text \<open>
  The configuration file that the LocalStack set-up script of the repository asks for, an
  expired session for the first configuration loaded and a valid one after the reload, the
  two pages of names and the two instances of the specification's examples.
\<close>

definition localstackIni :: ini_file where
  "localstackIni =
     [''profile localstack'' \<mapsto>
        [''region'' \<mapsto> ''us-east-1'', ''output'' \<mapsto> ''json'',
         ''endpoint_url'' \<mapsto> ''http://localhost:4566'']]"

definition webInstance :: Instance where
  "webInstance =
     \<lparr>Tags = [\<lparr>Key = Some ''Env'', Value = Some ''x''\<rparr>,
              \<lparr>Key = Some ''Name'', Value = Some ''web''\<rparr>],
      ImageId = Some ''ami-1''\<rparr>"

definition bareInstance :: Instance where
  "bareInstance = \<lparr>Tags = [], ImageId = None\<rparr>"

definition namePages :: "(error + DescribeParametersOutput) list" where
  "namePages =
     [Inr \<lparr>PageParameters = [\<lparr>ParameterName = Some ''a''\<rparr>, \<lparr>ParameterName = Some ''b''\<rparr>]\<rparr>,
      Inr \<lparr>PageParameters = [\<lparr>ParameterName = Some ''a''\<rparr>]\<rparr>]"

definition instancePages :: "(error + DescribeInstancesOutput) list" where
  "instancePages =
     [Inr \<lparr>Reservations = [\<lparr>ReservationInstances = [webInstance, bareInstance]\<rparr>]\<rparr>]"

definition world :: "nat env" where
  "world =
     \<lparr>UserHomeDir = Inr ''/home/op'',
      Join = (\<lambda>parts. case parts of [] \<Rightarrow> [] | p # ps \<Rightarrow> p @ concat (map (\<lambda>q. CHR ''/'' # q) ps)),
      iniLoad = (\<lambda>path. if path = ''/home/op/.aws/config'' then Inr localstackIni
                         else Inl (LibError ''open: no such file or directory'')),
      LoadDefaultConfig = (\<lambda>n opts. Inr n),
      GetCallerIdentity = (\<lambda>cfg. if cfg = 0 then Some (LibError ''ExpiredToken'') else None),
      LookPath = (\<lambda>file. Inr (''/usr/bin/'' @ file)),
      Run = (\<lambda>argv. None),
      DescribeParametersPages = (\<lambda>cfg search. namePages),
      DescribeInstancesPages = (\<lambda>cfg. instancePages)\<rparr>"

text \<open>The same world with a login subprocess that exits with an error.\<close>

definition loginFails :: "nat env" where
  "loginFails = world\<lparr>Run := \<lambda>argv. Some (LibError ''exit status 1'')\<rparr>"

text \<open>Listings whose second fetch of three fails.\<close>

definition failingNamePages :: "(error + DescribeParametersOutput) list" where
  "failingNamePages =
     [Inr \<lparr>PageParameters = [\<lparr>ParameterName = Some ''a''\<rparr>]\<rparr>,
      Inl (LibError ''ThrottlingException''),
      Inr \<lparr>PageParameters = [\<lparr>ParameterName = Some ''b''\<rparr>]\<rparr>]"

definition failingInstancePages :: "(error + DescribeInstancesOutput) list" where
  "failingInstancePages =
     [Inr \<lparr>Reservations = [\<lparr>ReservationInstances = [webInstance]\<rparr>]\<rparr>,
      Inl (LibError ''RequestLimitExceeded''),
      Inr \<lparr>Reservations = [\<lparr>ReservationInstances = [bareInstance]\<rparr>]\<rparr>]"

text \<open>An instance whose "Name" tag is followed by a tag without a key.\<close>

definition nilAfterName :: Instance where
  "nilAfterName =
     \<lparr>Tags = [\<lparr>Key = Some ''Name'', Value = Some ''web''\<rparr>, \<lparr>Key = None, Value = None\<rparr>],
      ImageId = None\<rparr>"

section \<open>Properties\<close>

subsection \<open>Strings\<close>

lemma HasSuffix_star: "HasSuffix s ''*'' \<longleftrightarrow> s \<noteq> [] \<and> last s = CHR ''*''"
proof (cases s rule: rev_cases)
  case Nil
  then show ?thesis by (simp add: HasSuffix_def)
next
  case (snoc ys y)
  then show ?thesis by (auto simp: HasSuffix_def)
qed

lemma TrimSuffix_star: "TrimSuffix s ''*'' = stripOneTrailing s"
proof (cases s rule: rev_cases)
  case Nil
  then show ?thesis by (simp add: TrimSuffix_def stripOneTrailing_def HasSuffix_def)
next
  case (snoc ys y)
  then show ?thesis
    by (auto simp: TrimSuffix_def stripOneTrailing_def HasSuffix_def)
qed

lemma searchFilter_cases:
  "searchFilter F =
     (if stripOneTrailing F \<noteq> [] \<and> last (stripOneTrailing F) = CHR ''*''
      then stripOneTrailing F else stripOneTrailing F @ ''*'')"
  by (simp add: searchFilter_def Let_def HasSuffix_star TrimSuffix_star)

lemma tw_snoc: "trailingWildcards (s @ [c]) = (if c = CHR ''*'' then Suc (trailingWildcards s) else 0)"
  by (simp add: trailingWildcards_def)

lemma tw_Nil: "trailingWildcards [] = 0"
  by (simp add: trailingWildcards_def)

lemma tw_pos: "0 < trailingWildcards s \<longleftrightarrow> s \<noteq> [] \<and> last s = CHR ''*''"
  by (cases s rule: rev_cases) (simp_all add: tw_snoc tw_Nil)

lemma tw_strip: "trailingWildcards (stripOneTrailing s) = trailingWildcards s - 1"
  by (cases s rule: rev_cases) (simp_all add: tw_snoc tw_Nil stripOneTrailing_def)

lemma tw_searchFilter:
  "trailingWildcards (searchFilter F) = max 1 (trailingWildcards F - 1)"
  using tw_pos [of "stripOneTrailing F"]
  by (auto simp: searchFilter_cases tw_snoc tw_strip max_def)

lemma begins_searchFilter:
  "beginsWithWildcard (searchFilter F) \<longleftrightarrow> F = [] \<or> beginsWithWildcard F"
proof (cases F rule: rev_cases)
  case Nil
  then show ?thesis by (simp add: searchFilter_cases stripOneTrailing_def beginsWithWildcard_def)
next
  case (snoc ys y)
  then show ?thesis
    by (cases ys) (auto simp: searchFilter_cases stripOneTrailing_def beginsWithWildcard_def split: list.splits)
qed

lemma normalizeSpec_eq_iff:
  "searchFilter F = normalizeSpec F \<longleftrightarrow> trailingWildcards F \<le> 1"
proof -
  have "searchFilter F = normalizeSpec F \<longleftrightarrow>
        \<not> (stripOneTrailing F \<noteq> [] \<and> last (stripOneTrailing F) = CHR ''*'')"
    by (simp add: searchFilter_cases normalizeSpec_def)
  also have "\<dots> \<longleftrightarrow> \<not> 0 < trailingWildcards (stripOneTrailing F)"
    by (simp only: tw_pos)
  also have "\<dots> \<longleftrightarrow> trailingWildcards F \<le> 1"
    by (auto simp: tw_strip)
  finally show ?thesis .
qed

subsection \<open>The loops\<close>

lemma appendNames_eq: "appendNames ps acc = acc @ List.map_filter ParameterName ps"
  by (induction ps arbitrary: acc) (simp_all split: option.splits)

lemma listParams_ok: "listParams (map Inr ps) acc = Inr (acc @ allNames ps)"
  by (induction ps arbitrary: acc) (simp_all add: allNames_def pageNames_def appendNames_eq)

lemma allNames_present:
  "allNames ps =
     map the (filter (\<lambda>n. n \<noteq> None) (map ParameterName (concat (map PageParameters ps))))"
  by (induction ps) (simp_all add: allNames_def pageNames_def List.map_filter_def filter_map comp_def)

lemma listParams_fail:
  "listParams (map Inr ps @ Inl err # rest) acc =
     Inl (Return None (Some (Errorf ''failed to list params: %w'' [ArgErr err])))"
  by (induction ps arbitrary: acc) simp_all

lemma tagLoop_Inl: "tagLoop tags name = Inl out \<Longrightarrow> out = Panic"
  by (induction tags) (auto split: option.splits if_splits)

lemma tagLoop_fault: "tagLoop tags name = Inl Panic \<longleftrightarrow> tagsFault tags"
  by (induction tags) (auto simp: tagsFault_def split: option.splits)

lemma tagLoop_name:
  "tagLoop tags name0 = Inr name \<Longrightarrow>
     (case find (\<lambda>t. Key t = Some ''Name'') tags of
        None \<Rightarrow> name = name0
      | Some t \<Rightarrow> Value t = Some name)"
  by (induction tags) (auto split: option.splits if_splits)

lemma instLoop_Inl: "instLoop insts acc = Inl out \<Longrightarrow> out = Panic"
  by (induction insts arbitrary: acc) (auto simp: Let_def split: sum.splits dest: tagLoop_Inl)

lemma instLoop_fault: "instLoop insts acc = Inl Panic \<longleftrightarrow> list_ex instFaults insts"
proof (induction insts arbitrary: acc)
  case Nil
  then show ?case by simp
next
  case (Cons i insts)
  show ?case
  proof (cases "tagLoop (Tags i) []")
    case (Inl out)
    then have "out = Panic" by (rule tagLoop_Inl)
    with Inl show ?thesis using tagLoop_fault [of "Tags i" "[]"]
      by (simp add: instFaults_def)
  next
    case (Inr name)
    then have "\<not> tagsFault (Tags i)" using tagLoop_fault [of "Tags i" "[]"] by simp
    with Inr Cons.IH show ?thesis by (simp add: instFaults_def Let_def)
  qed
qed

lemma instLoop_records:
  "instLoop insts acc = Inr recs \<Longrightarrow>
     \<exists>new. recs = acc @ new \<and> list_all2 projects insts new"
proof (induction insts arbitrary: acc)
  case Nil
  then show ?case by simp
next
  case (Cons i insts)
  from Cons.prems obtain name where n: "tagLoop (Tags i) [] = Inr name"
    and rest: "instLoop insts (acc @ [\<lparr>Name = name, AMI = (case ImageId i of None \<Rightarrow> [] | Some a \<Rightarrow> a)\<rparr>]) = Inr recs"
    by (auto simp: Let_def split: sum.splits)
  from Cons.IH [OF rest] obtain new where
    new: "recs = (acc @ [\<lparr>Name = name, AMI = (case ImageId i of None \<Rightarrow> [] | Some a \<Rightarrow> a)\<rparr>]) @ new"
      "list_all2 projects insts new" by blast
  have "projects i \<lparr>Name = name, AMI = (case ImageId i of None \<Rightarrow> [] | Some a \<Rightarrow> a)\<rparr>"
    using tagLoop_name [OF n] by (simp add: projects_def split: option.splits)
  with new show ?case by auto
qed

lemma resLoop_Inl: "resLoop ress acc = Inl out \<Longrightarrow> out = Panic"
  by (induction ress arbitrary: acc) (auto split: sum.splits dest: instLoop_Inl)

lemma resLoop_fault:
  "resLoop ress acc = Inl Panic \<longleftrightarrow>
     list_ex instFaults (concat (map ReservationInstances ress))"
proof (induction ress arbitrary: acc)
  case Nil
  then show ?case by simp
next
  case (Cons r ress)
  show ?case
  proof (cases "instLoop (ReservationInstances r) acc")
    case (Inl out)
    then have "out = Panic" by (rule instLoop_Inl)
    with Inl show ?thesis using instLoop_fault [of "ReservationInstances r" acc]
      by simp
  next
    case (Inr acc')
    then have "\<not> list_ex instFaults (ReservationInstances r)"
      using instLoop_fault [of "ReservationInstances r" acc] by simp
    with Inr Cons.IH [of acc'] show ?thesis by simp
  qed
qed

lemma resLoop_records:
  "resLoop ress acc = Inr recs \<Longrightarrow>
     \<exists>new. recs = acc @ new \<and> list_all2 projects (concat (map ReservationInstances ress)) new"
proof (induction ress arbitrary: acc)
  case Nil
  then show ?case by simp
next
  case (Cons r ress)
  from Cons.prems obtain acc' where a: "instLoop (ReservationInstances r) acc = Inr acc'"
    and b: "resLoop ress acc' = Inr recs"
    by (auto split: sum.splits)
  from instLoop_records [OF a] obtain n1 where
    n1: "acc' = acc @ n1" "list_all2 projects (ReservationInstances r) n1" by blast
  from Cons.IH [OF b] obtain n2 where
    n2: "recs = acc' @ n2" "list_all2 projects (concat (map ReservationInstances ress)) n2"
    by blast
  from n1 n2 have "recs = acc @ (n1 @ n2)" by simp
  moreover from n1 n2
  have "list_all2 projects (concat (map ReservationInstances (r # ress))) (n1 @ n2)"
    by (simp add: list_all2_appendI)
  ultimately show ?case by blast
qed

lemma describeInstances_fault:
  "describeInstances pages acc = Inl Panic \<longleftrightarrow>
     list_ex instFaults (allInstances (beforeFailure pages))"
proof (induction pages acc rule: describeInstances.induct)
  case (1 instances)
  then show ?case by (simp add: allInstances_def)
next
  case (2 err rest instances)
  then show ?case by (simp add: allInstances_def)
next
  case (3 page rest instances)
  show ?case
  proof (cases "resLoop (Reservations page) instances")
    case (Inl out)
    then have "out = Panic" by (rule resLoop_Inl)
    with Inl show ?thesis using resLoop_fault [of "Reservations page" instances]
      by (simp add: allInstances_def pageInstances_def)
  next
    case (Inr acc')
    then have "\<not> list_ex instFaults (pageInstances page)"
      using resLoop_fault [of "Reservations page" instances] by (simp add: pageInstances_def)
    with Inr "3.IH" [OF Inr] show ?thesis
      by (simp add: allInstances_def)
  qed
qed

lemma describeInstances_records:
  "describeInstances pages acc = Inr recs \<Longrightarrow>
     \<exists>qs new. pages = map Inr qs \<and> recs = acc @ new \<and> list_all2 projects (allInstances qs) new"
proof (induction pages acc rule: describeInstances.induct)
  case (1 instances)
  then show ?case by (simp add: allInstances_def)
next
  case (2 err rest instances)
  then show ?case by simp
next
  case (3 page rest instances)
  from "3.prems" obtain acc' where a: "resLoop (Reservations page) instances = Inr acc'"
    and b: "describeInstances rest acc' = Inr recs"
    by (auto split: sum.splits)
  from resLoop_records [OF a] obtain n1 where
    n1: "acc' = instances @ n1" "list_all2 projects (pageInstances page) n1"
    by (auto simp: pageInstances_def)
  from "3.IH" [OF a b] obtain qs n2 where
    n2: "rest = map Inr qs" "recs = acc' @ n2" "list_all2 projects (allInstances qs) n2"
    by blast
  show ?case
  proof (intro exI conjI)
    from n2 show "Inr page # rest = map Inr (page # qs)" by simp
    from n1 n2 show "recs = instances @ (n1 @ n2)" by simp
    from n1 n2 show "list_all2 projects (allInstances (page # qs)) (n1 @ n2)"
      by (simp add: allInstances_def list_all2_appendI)
  qed
qed

lemma describeInstances_fail:
  "\<not> list_ex instFaults (allInstances qs) \<Longrightarrow>
   describeInstances (map Inr qs @ Inl err # rest) acc =
     Inl (Return None (Some (Errorf ''failed to describe instances: %w'' [ArgErr err])))"
proof (induction qs arbitrary: acc)
  case Nil
  then show ?case by simp
next
  case (Cons q qs)
  from Cons.prems have nf: "\<not> list_ex instFaults (pageInstances q)"
    and nf': "\<not> list_ex instFaults (allInstances qs)"
    by (simp_all add: allInstances_def)
  show ?case
  proof (cases "resLoop (Reservations q) acc")
    case (Inl out)
    then have "out = Panic" by (rule resLoop_Inl)
    with Inl nf show ?thesis using resLoop_fault [of "Reservations q" acc]
      by (simp add: pageInstances_def)
  next
    case (Inr acc')
    with Cons.IH [OF nf'] show ?thesis by simp
  qed
qed

lemma describeInstances_ok:
  "\<not> list_ex instFaults (allInstances qs) \<Longrightarrow> \<exists>recs. describeInstances (map Inr qs) acc = Inr recs"
proof (induction qs arbitrary: acc)
  case Nil
  then show ?case by simp
next
  case (Cons q qs)
  from Cons.prems have nf: "\<not> list_ex instFaults (pageInstances q)"
    and nf': "\<not> list_ex instFaults (allInstances qs)"
    by (simp_all add: allInstances_def)
  show ?case
  proof (cases "resLoop (Reservations q) acc")
    case (Inl out)
    then have "out = Panic" by (rule resLoop_Inl)
    with Inl nf show ?thesis using resLoop_fault [of "Reservations q" acc]
      by (simp add: pageInstances_def)
  next
    case (Inr acc')
    with Cons.IH [OF nf'] show ?thesis by simp
  qed
qed

lemma wellTagged_no_fault: "wellTagged inst \<Longrightarrow> \<not> instFaults inst"
proof -
  have "list_all (\<lambda>t. Key t \<noteq> None \<and> (Key t = Some ''Name'' \<longrightarrow> Value t \<noteq> None)) tags
        \<Longrightarrow> \<not> tagsFault tags" for tags
    by (induction tags) (auto simp: tagsFault_def)
  then show "wellTagged inst \<Longrightarrow> \<not> instFaults inst"
    by (simp add: wellTagged_def instFaults_def)
qed

subsection \<open>The sequence of steps\<close>

lemma Processing_fst:
  "fst (authenticate env profile) = Inr cfg \<Longrightarrow>
   fst (Processing env profile fltr) =
     (case listParams (DescribeParametersPages env cfg (searchFilter fltr)) [] of
        Inl out \<Rightarrow> out
      | Inr params \<Rightarrow>
          (case describeInstances (DescribeInstancesPages env cfg) [] of
             Inl out \<Rightarrow> out
           | Inr instances \<Rightarrow>
               Return (Some \<lparr>Parameters = params, Instances = instances\<rparr>) None))"
  by (cases "authenticate env profile")
     (simp add: Processing_def Let_def split: sum.splits)

lemma Processing_early:
  "fst (authenticate env profile) = Inl out \<Longrightarrow>
   Processing env profile fltr = (out, snd (authenticate env profile))"
  by (cases "authenticate env profile") (simp add: Processing_def)

lemma Processing_snd:
  "snd (Processing env profile fltr) =
     snd (authenticate env profile) @
     (case fst (authenticate env profile) of
        Inl out \<Rightarrow> []
      | Inr cfg \<Rightarrow> [NewDescribeParametersPaginator (searchFilter fltr)])"
  by (cases "authenticate env profile")
     (simp add: Processing_def Let_def split: sum.splits)

lemma listParams_Inl: "listParams pages acc = Inl out \<Longrightarrow> \<exists>e. out = Return None (Some e)"
  by (induction pages acc rule: listParams.induct) auto

lemma listParams_Inr:
  "listParams pages acc = Inr names \<Longrightarrow> \<exists>ps. pages = map Inr ps \<and> names = acc @ allNames ps"
proof (induction pages acc rule: listParams.induct)
  case (1 params)
  then show ?case by (simp add: allNames_def)
next
  case (2 err rest params)
  then show ?case by simp
next
  case (3 page rest params)
  then obtain ps where ps: "rest = map Inr ps"
      "names = appendNames (PageParameters page) params @ allNames ps"
    by auto
  show ?case
  proof (intro exI conjI)
    from ps show "Inr page # rest = map Inr (page # ps)" by simp
    from ps show "names = params @ allNames (page # ps)"
      by (simp add: appendNames_eq allNames_def pageNames_def)
  qed
qed

lemma describeInstances_Inl:
  "describeInstances pages acc = Inl out \<Longrightarrow> out = Panic \<or> (\<exists>e. out = Return None (Some e))"
  by (induction pages acc rule: describeInstances.induct)
     (auto split: sum.splits dest: resLoop_Inl)

lemma Processing_result:
  assumes "fst (authenticate env profile) = Inr cfg"
    and "fst (Processing env profile fltr) = Return (Some r) None"
  shows "listParams (DescribeParametersPages env cfg (searchFilter fltr)) [] = Inr (Parameters r)
       \<and> describeInstances (DescribeInstancesPages env cfg) [] = Inr (Instances r)"
  using assms(2) unfolding Processing_fst [OF assms(1)]
  by (auto split: sum.splits dest: listParams_Inl describeInstances_Inl)

lemma authenticate_override:
  assumes "getEndpointFromConfig env profile \<noteq> []"
    and "LoadDefaultConfig env 0 (loadOpts profile (getEndpointFromConfig env profile)) = Inr cfg"
    and "GetCallerIdentity env cfg = Some err"
  shows "authenticate env profile =
     (Inl (Return None (Some (Errorf
        ''failed to validate identity with custom endpoint %q: %w. Ensure LocalStack is running and credentials are configured''
        [ArgStr (getEndpointFromConfig env profile), ArgErr err]))),
      [CallLoadDefaultConfig (loadOpts profile (getEndpointFromConfig env profile)),
       CallGetCallerIdentity])"
  using assms by (simp add: authenticate_def Let_def)

lemma authenticate_no_tool:
  assumes "getEndpointFromConfig env profile = []"
    and "LoadDefaultConfig env 0 (loadOpts profile []) = Inr cfg"
    and "GetCallerIdentity env cfg = Some err"
    and "LookPath env ''aws'' = Inl pathErr"
  shows "authenticate env profile =
     (Inl (Return None (Some (Errorf
        ''aws cli not found in PATH, cannot perform sso login: %w'' [ArgErr err]))),
      [CallLoadDefaultConfig (loadOpts profile []), CallGetCallerIdentity,
       LogPrintf ''Token invalid or expired. Attempting SSO login for profile: %s''
         [ArgStr profile],
       CallLookPath ''aws''])"
  using assms by (simp add: authenticate_def Let_def)

lemma authenticate_login:
  assumes "getEndpointFromConfig env profile = []"
    and "LoadDefaultConfig env 0 (loadOpts profile []) = Inr cfg"
    and "GetCallerIdentity env cfg = Some err"
    and "LookPath env ''aws'' = Inr path"
  shows "filter (\<lambda>e. isRun e \<or> isLoad e) (snd (authenticate env profile)) =
     [CallLoadDefaultConfig (loadOpts profile []),
      CallRun [''aws'', ''sso'', ''login'', ''--profile'', profile]] @
     (if Run env [''aws'', ''sso'', ''login'', ''--profile'', profile] = None
      then [CallLoadDefaultConfig (loadOpts profile [])] else [])"
  using assms by (simp add: authenticate_def Let_def split: option.splits sum.splits)

lemma authenticate_login_fails:
  assumes "getEndpointFromConfig env profile = []"
    and "LoadDefaultConfig env 0 (loadOpts profile []) = Inr cfg"
    and "GetCallerIdentity env cfg = Some err"
    and "LookPath env ''aws'' = Inr path"
    and "Run env [''aws'', ''sso'', ''login'', ''--profile'', profile] = Some runErr"
  shows "authenticate env profile =
     (Inl (Return None (Some (Errorf ''aws sso login failed: %w'' [ArgErr runErr]))),
      [CallLoadDefaultConfig (loadOpts profile []), CallGetCallerIdentity,
       LogPrintf ''Token invalid or expired. Attempting SSO login for profile: %s''
         [ArgStr profile],
       CallLookPath ''aws'',
       CallRun [''aws'', ''sso'', ''login'', ''--profile'', profile]])"
  using assms by (simp add: authenticate_def Let_def)

lemma authenticate_reload_fails:
  assumes "getEndpointFromConfig env profile = []"
    and "LoadDefaultConfig env 0 (loadOpts profile []) = Inr cfg"
    and "GetCallerIdentity env cfg = Some err"
    and "LookPath env ''aws'' = Inr path"
    and "Run env [''aws'', ''sso'', ''login'', ''--profile'', profile] = None"
    and "LoadDefaultConfig env 1 (loadOpts profile []) = Inl loadErr"
  shows "authenticate env profile =
     (Inl (Return None (Some (Errorf ''unable to reload SDK config after login: %v''
             [ArgErr loadErr]))),
      [CallLoadDefaultConfig (loadOpts profile []), CallGetCallerIdentity,
       LogPrintf ''Token invalid or expired. Attempting SSO login for profile: %s''
         [ArgStr profile],
       CallLookPath ''aws'',
       CallRun [''aws'', ''sso'', ''login'', ''--profile'', profile],
       CallLoadDefaultConfig (loadOpts profile [])])"
  using assms by (simp add: authenticate_def Let_def)

lemma authenticate_reload_ok:
  assumes "getEndpointFromConfig env profile = []"
    and "LoadDefaultConfig env 0 (loadOpts profile []) = Inr cfg"
    and "GetCallerIdentity env cfg = Some err"
    and "LookPath env ''aws'' = Inr path"
    and "Run env [''aws'', ''sso'', ''login'', ''--profile'', profile] = None"
    and "LoadDefaultConfig env 1 (loadOpts profile []) = Inr cfg'"
  shows "authenticate env profile =
     (Inr cfg',
      [CallLoadDefaultConfig (loadOpts profile []), CallGetCallerIdentity,
       LogPrintf ''Token invalid or expired. Attempting SSO login for profile: %s''
         [ArgStr profile],
       CallLookPath ''aws'',
       CallRun [''aws'', ''sso'', ''login'', ''--profile'', profile],
       CallLoadDefaultConfig (loadOpts profile [])])"
  using assms by (simp add: authenticate_def Let_def)

lemma Unwrap_login_failed:
  "Unwrap (Errorf ''aws sso login failed: %w'' [ArgErr err]) = Some err"
  by (simp add: Unwrap_def)

lemma authenticate_logins: "logins (snd (authenticate env profile)) \<le> 1"
  by (simp add: authenticate_def Let_def logins_def split: option.splits sum.splits)

lemma authenticate_loads: "loads (snd (authenticate env profile)) \<le> 2"
  by (simp add: authenticate_def Let_def loads_def split: option.splits sum.splits)

lemma logins_Processing:
  "logins (snd (Processing env profile fltr)) = logins (snd (authenticate env profile))"
  by (simp add: Processing_snd logins_def split: sum.splits)

lemma loads_Processing:
  "loads (snd (Processing env profile fltr)) = loads (snd (authenticate env profile))"
  by (simp add: Processing_snd loads_def split: sum.splits)

lemma filter_Processing:
  "filter (\<lambda>e. isRun e \<or> isLoad e) (snd (Processing env profile fltr)) =
   filter (\<lambda>e. isRun e \<or> isLoad e) (snd (authenticate env profile))"
  by (simp add: Processing_snd split: sum.splits)

lemma Unwrap_no_tool:
  "Unwrap (Errorf ''aws cli not found in PATH, cannot perform sso login: %w'' [ArgErr err]) = Some err"
  by (simp add: Unwrap_def)

lemma Unwrap_override:
  "Unwrap (Errorf ''failed to validate identity with custom endpoint %q: %w. Ensure LocalStack is running and credentials are configured'' [ArgStr u, ArgErr err]) = Some err"
  by (simp add: Unwrap_def)

lemma Unwrap_list_params:
  "Unwrap (Errorf ''failed to list params: %w'' [ArgErr err]) = Some err"
  by (simp add: Unwrap_def)

lemma Unwrap_describe_instances:
  "Unwrap (Errorf ''failed to describe instances: %w'' [ArgErr err]) = Some err"
  by (simp add: Unwrap_def)

subsection \<open>The concrete world\<close>

lemma world_endpoint_localstack:
  "getEndpointFromConfig world ''localstack'' = ''http://localhost:4566''"
  by (simp add: getEndpointFromConfig_def world_def localstackIni_def Section_def HasKey_def
      KeyString_def Let_def)

lemma world_endpoint_dev: "getEndpointFromConfig world ''dev'' = []"
  by (simp add: getEndpointFromConfig_def world_def localstackIni_def Section_def HasKey_def
      KeyString_def Let_def)

lemma endpoint_Run [simp]:
  "getEndpointFromConfig (env\<lparr>Run := r\<rparr>) profile = getEndpointFromConfig env profile"
  by (simp add: getEndpointFromConfig_def Let_def split: sum.splits)

lemma endpoint_LookPath [simp]:
  "getEndpointFromConfig (env\<lparr>LookPath := l\<rparr>) profile = getEndpointFromConfig env profile"
  by (simp add: getEndpointFromConfig_def Let_def split: sum.splits)

lemma endpoint_ssm [simp]:
  "getEndpointFromConfig (env\<lparr>DescribeParametersPages := d\<rparr>) profile =
   getEndpointFromConfig env profile"
  by (simp add: getEndpointFromConfig_def Let_def split: sum.splits)

lemma endpoint_ec2 [simp]:
  "getEndpointFromConfig (env\<lparr>DescribeInstancesPages := d\<rparr>) profile =
   getEndpointFromConfig env profile"
  by (simp add: getEndpointFromConfig_def Let_def split: sum.splits)

lemma authenticate_ssm [simp]:
  "authenticate (env\<lparr>DescribeParametersPages := d\<rparr>) profile = authenticate env profile"
  by (simp add: authenticate_def Let_def split: sum.splits option.splits)

lemma authenticate_ec2 [simp]:
  "authenticate (env\<lparr>DescribeInstancesPages := d\<rparr>) profile = authenticate env profile"
  by (simp add: authenticate_def Let_def split: sum.splits option.splits)

lemma world_authenticate_dev: "fst (authenticate world ''dev'') = Inr 1"
  by (simp add: authenticate_def world_endpoint_dev Let_def) (simp add: world_def)

lemma world_listParams: "listParams namePages [] = Inr [''a'', ''b'', ''a'']"
  by (simp add: namePages_def)

lemma world_describeInstances:
  "describeInstances instancePages [] =
     Inr [\<lparr>Name = ''web'', AMI = ''ami-1''\<rparr>, \<lparr>Name = [], AMI = []\<rparr>]"
  by (simp add: instancePages_def webInstance_def bareInstance_def)

lemma world_Processing_dev:
  "fst (Processing world ''dev'' fltr) =
     Return (Some \<lparr>Parameters = [''a'', ''b'', ''a''],
                   Instances = [\<lparr>Name = ''web'', AMI = ''ami-1''\<rparr>, \<lparr>Name = [], AMI = []\<rparr>]\<rparr>)
       None"
  by (simp add: Processing_fst [OF world_authenticate_dev])
     (simp add: world_def world_listParams world_describeInstances)

subsection \<open>The filter\<close>

text \<open>
  Claim C1 says that for every raw filter without an internal wildcard the filter computed
  by the code is the raw filter with at most one trailing wildcard marker stripped and
  exactly one appended. Counterexample: "foo**" has no internal wildcard, the rule gives
  "foo**" (one marker stripped, one appended), and the code gives "foo*", since it appends
  nothing when a marker is left after the stripping.
\<close>

theorem searchFilter_two_trailing_differs:
  "\<not> hasInternalWildcard ''foo**''
   \<and> searchFilter ''foo**'' = ''foo*''
   \<and> normalizeSpec ''foo**'' = ''foo**''"
  by (simp add: hasInternalWildcard_def searchFilter_cases normalizeSpec_def stripOneTrailing_def)

text \<open>
  Claim C1, amended. The filter computed by the code is the raw filter with at most one
  trailing wildcard marker stripped and exactly one appended exactly when the raw filter
  ends with at most one wildcard marker, whatever markers it has elsewhere; the empty
  filter gives "*", "foo*" gives "foo*" and "foo" gives "foo*".
\<close>

theorem searchFilter_strip_then_append_iff:
  "(searchFilter F = normalizeSpec F \<longleftrightarrow> trailingWildcards F \<le> 1)
   \<and> (trailingWildcards F \<le> 1 \<longrightarrow> searchFilter F = stripOneTrailing F @ ''*'')
   \<and> searchFilter '''' = ''*''
   \<and> searchFilter ''foo*'' = ''foo*''
   \<and> searchFilter ''foo'' = ''foo*''"
proof -
  have "searchFilter '''' = ''*''"
    by (simp add: searchFilter_cases stripOneTrailing_def)
  moreover have "searchFilter ''foo*'' = ''foo*''"
    by (simp add: searchFilter_cases stripOneTrailing_def)
  moreover have "searchFilter ''foo'' = ''foo*''"
    by (simp add: searchFilter_cases stripOneTrailing_def)
  ultimately show ?thesis
    using normalizeSpec_eq_iff [of F] by (simp add: normalizeSpec_def)
qed

theorem searchFilter_strip_then_append_iff_witness:
  "trailingWildcards ''*/app/pr*d*'' \<le> 1
   \<and> searchFilter ''*/app/pr*d*'' = normalizeSpec ''*/app/pr*d*''
   \<and> searchFilter ''*/app/pr*d*'' = ''*/app/pr*d*''
   \<and> \<not> trailingWildcards ''**'' \<le> 1
   \<and> searchFilter ''**'' \<noteq> normalizeSpec ''**''"
  using searchFilter_strip_then_append_iff [of "''*/app/pr*d*''"]
    searchFilter_strip_then_append_iff [of "''**''"]
  by (simp add: trailingWildcards_def stripOneTrailing_def normalizeSpec_def)

text \<open>
  Claim C2 says that the filter handed to the listing call ends with exactly one wildcard
  marker and never begins with one, for every raw filter. Counterexample: "foo***" gives
  "foo**", which ends with two, and "*foo" gives "*foo*", which begins with one.
\<close>

theorem searchFilter_not_exactly_one_no_leading:
  "trailingWildcards (searchFilter ''foo***'') = 2 \<and> beginsWithWildcard (searchFilter ''*foo'')"
  by (simp add: searchFilter_cases stripOneTrailing_def trailingWildcards_def
      beginsWithWildcard_def)

text \<open>
  Claim C2, amended. The filter handed to the listing call always ends with at least one
  wildcard marker, and with exactly one whenever the raw filter ends with at most two; a
  leading marker is never removed: the result begins with a wildcard marker exactly when
  the raw filter is empty or begins with one.
\<close>

theorem searchFilter_trailing_and_leading:
  "1 \<le> trailingWildcards (searchFilter F)
   \<and> (trailingWildcards F \<le> 2 \<longrightarrow> trailingWildcards (searchFilter F) = 1)
   \<and> (beginsWithWildcard (searchFilter F) \<longleftrightarrow> F = [] \<or> beginsWithWildcard F)"
  by (auto simp: tw_searchFilter begins_searchFilter max_def)

theorem searchFilter_trailing_and_leading_witness:
  "trailingWildcards ''prod**'' \<le> 2 \<and> trailingWildcards (searchFilter ''prod**'') = 1
   \<and> \<not> beginsWithWildcard (searchFilter ''prod**'')"
  using searchFilter_trailing_and_leading [of "''prod**''"]
  by (simp add: trailingWildcards_def beginsWithWildcard_def)

subsection \<open>Authentication\<close>

text \<open>
  Claim C3. When an endpoint override is in effect and the identity check fails, the run
  returns no result and an error that carries the override endpoint and wraps the error of
  the identity check, and no login subprocess is run.
\<close>

theorem override_failure_is_terminal:
  assumes "getEndpointFromConfig env profile \<noteq> []"
    and "LoadDefaultConfig env 0 (loadOpts profile (getEndpointFromConfig env profile)) = Inr cfg"
    and "GetCallerIdentity env cfg = Some err"
  shows "fst (Processing env profile fltr) =
           Return None (Some (Errorf
             ''failed to validate identity with custom endpoint %q: %w. Ensure LocalStack is running and credentials are configured''
             [ArgStr (getEndpointFromConfig env profile), ArgErr err]))
         \<and> Unwrap (Errorf
             ''failed to validate identity with custom endpoint %q: %w. Ensure LocalStack is running and credentials are configured''
             [ArgStr (getEndpointFromConfig env profile), ArgErr err]) = Some err
         \<and> logins (snd (Processing env profile fltr)) = 0"
proof -
  note a = authenticate_override [OF assms]
  then have "fst (authenticate env profile) = Inl (Return None (Some (Errorf
             ''failed to validate identity with custom endpoint %q: %w. Ensure LocalStack is running and credentials are configured''
             [ArgStr (getEndpointFromConfig env profile), ArgErr err])))"
    by simp
  from Processing_early [OF this] a show ?thesis
    by (simp add: Unwrap_override logins_def)
qed

theorem override_failure_is_terminal_witness:
  "getEndpointFromConfig world ''localstack'' \<noteq> []
   \<and> GetCallerIdentity world 0 = Some (LibError ''ExpiredToken'')
   \<and> fst (Processing world ''localstack'' ''prod'') =
       Return None (Some (Errorf
         ''failed to validate identity with custom endpoint %q: %w. Ensure LocalStack is running and credentials are configured''
         [ArgStr ''http://localhost:4566'', ArgErr (LibError ''ExpiredToken'')]))
   \<and> logins (snd (Processing world ''localstack'' ''prod'')) = 0"
proof -
  have h1: "getEndpointFromConfig world ''localstack'' \<noteq> []"
    by (simp add: world_endpoint_localstack)
  have h2: "LoadDefaultConfig world 0
              (loadOpts ''localstack'' (getEndpointFromConfig world ''localstack'')) = Inr 0"
    by (simp add: world_def)
  have h3: "GetCallerIdentity world 0 = Some (LibError ''ExpiredToken'')"
    by (simp add: world_def)
  from override_failure_is_terminal [OF h1 h2 h3, of "''prod''"] h1 h3 show ?thesis
    by (simp add: world_endpoint_localstack)
qed

text \<open>
  Claim C9. When no endpoint override is in effect, the identity check fails and the
  login tool is not found, the run returns no result and an error whose text names the
  aws cli and which wraps the error of the identity check, not the one of the lookup; no
  login subprocess is run.
\<close>

theorem missing_tool_wraps_validation_error:
  assumes "getEndpointFromConfig env profile = []"
    and "LoadDefaultConfig env 0 (loadOpts profile []) = Inr cfg"
    and "GetCallerIdentity env cfg = Some err"
    and "LookPath env ''aws'' = Inl pathErr"
  shows "fst (Processing env profile fltr) =
           Return None (Some (Errorf
             ''aws cli not found in PATH, cannot perform sso login: %w'' [ArgErr err]))
         \<and> Unwrap (Errorf
             ''aws cli not found in PATH, cannot perform sso login: %w'' [ArgErr err]) = Some err
         \<and> logins (snd (Processing env profile fltr)) = 0"
proof -
  note a = authenticate_no_tool [OF assms]
  then have "fst (authenticate env profile) = Inl (Return None (Some (Errorf
             ''aws cli not found in PATH, cannot perform sso login: %w'' [ArgErr err])))"
    by simp
  from Processing_early [OF this] a show ?thesis
    by (simp add: Unwrap_no_tool logins_def)
qed

theorem missing_tool_wraps_validation_error_witness:
  "fst (Processing
          (world\<lparr>LookPath := \<lambda>file. Inl (LibError ''executable file not found in $PATH'')\<rparr>)
          ''dev'' ''prod'') =
     Return None (Some (Errorf
       ''aws cli not found in PATH, cannot perform sso login: %w''
       [ArgErr (LibError ''ExpiredToken'')]))
   \<and> logins (snd (Processing
          (world\<lparr>LookPath := \<lambda>file. Inl (LibError ''executable file not found in $PATH'')\<rparr>)
          ''dev'' ''prod'')) = 0"
proof -
  let ?w = "world\<lparr>LookPath := \<lambda>file. Inl (LibError ''executable file not found in $PATH'')\<rparr>"
  have h1: "getEndpointFromConfig ?w ''dev'' = []"
    by (simp add: world_endpoint_dev)
  have h2: "LoadDefaultConfig ?w 0 (loadOpts ''dev'' []) = Inr 0"
    by (simp add: world_def)
  have h3: "GetCallerIdentity ?w 0 = Some (LibError ''ExpiredToken'')"
    by (simp add: world_def)
  have h4: "LookPath ?w ''aws'' = Inl (LibError ''executable file not found in $PATH'')"
    by simp
  from missing_tool_wraps_validation_error [OF h1 h2 h3 h4, of "''prod''"] show ?thesis
    by simp
qed

text \<open>
  Claim C4 says that, with no override, a failed identity check and the login tool at
  hand, one login subprocess is run and the configuration is rebuilt once afterwards.
  Counterexample: when the login subprocess itself fails, the run ends there: one login,
  and no load of the configuration after it.
\<close>

theorem login_failure_skips_rebuild:
  "getEndpointFromConfig loginFails ''dev'' = []
   \<and> GetCallerIdentity loginFails 0 = Some (LibError ''ExpiredToken'')
   \<and> LookPath loginFails ''aws'' = Inr ''/usr/bin/aws''
   \<and> Processing loginFails ''dev'' ''prod'' =
       (Return None (Some (Errorf ''aws sso login failed: %w'' [ArgErr (LibError ''exit status 1'')])),
        [CallLoadDefaultConfig [WithSharedConfigProfile ''dev''],
         CallGetCallerIdentity,
         LogPrintf ''Token invalid or expired. Attempting SSO login for profile: %s''
           [ArgStr ''dev''],
         CallLookPath ''aws'',
         CallRun [''aws'', ''sso'', ''login'', ''--profile'', ''dev'']])
   \<and> logins (snd (Processing loginFails ''dev'' ''prod'')) = 1
   \<and> loads (snd (Processing loginFails ''dev'' ''prod'')) = 1"
  by (simp add: loginFails_def world_endpoint_dev Processing_def authenticate_def Let_def
      loadOpts_def logins_def loads_def)
     (simp add: world_def)

text \<open>
  Claim C4, amended. With no override, a failed identity check and the login tool found,
  exactly one login subprocess is run, after the first load of the configuration. When it
  fails, the run ends there: it returns no result and the error that wraps the error of the
  login, and the configuration is not loaded again. When it succeeds, the configuration is
  loaded again exactly once, after it: a failed reload ends the run with its error, and
  otherwise the run goes on to the two listings with the configuration of the reload. No
  run has more than one login or more than two loads (one rebuild).
\<close>

theorem one_login_then_one_rebuild:
  "logins (snd (Processing env' profile' fltr')) \<le> 1
   \<and> loads (snd (Processing env' profile' fltr')) \<le> 2
   \<and> (getEndpointFromConfig env profile = []
        \<and> LoadDefaultConfig env 0 (loadOpts profile []) = Inr cfg
        \<and> GetCallerIdentity env cfg = Some err
        \<and> LookPath env ''aws'' = Inr path
      \<longrightarrow> filter (\<lambda>e. isRun e \<or> isLoad e) (snd (Processing env profile fltr)) =
            [CallLoadDefaultConfig (loadOpts profile []),
             CallRun [''aws'', ''sso'', ''login'', ''--profile'', profile]] @
            (if Run env [''aws'', ''sso'', ''login'', ''--profile'', profile] = None
             then [CallLoadDefaultConfig (loadOpts profile [])] else [])
          \<and> (Run env [''aws'', ''sso'', ''login'', ''--profile'', profile] = Some runErr
             \<longrightarrow> Processing env profile fltr =
                   (Return None (Some (Errorf ''aws sso login failed: %w'' [ArgErr runErr])),
                    [CallLoadDefaultConfig (loadOpts profile []), CallGetCallerIdentity,
                     LogPrintf ''Token invalid or expired. Attempting SSO login for profile: %s''
                       [ArgStr profile],
                     CallLookPath ''aws'',
                     CallRun [''aws'', ''sso'', ''login'', ''--profile'', profile]])
                 \<and> Unwrap (Errorf ''aws sso login failed: %w'' [ArgErr runErr]) = Some runErr)
          \<and> (Run env [''aws'', ''sso'', ''login'', ''--profile'', profile] = None
               \<and> LoadDefaultConfig env 1 (loadOpts profile []) = Inl loadErr
             \<longrightarrow> Processing env profile fltr =
                   (Return None (Some (Errorf ''unable to reload SDK config after login: %v''
                      [ArgErr loadErr])),
                    [CallLoadDefaultConfig (loadOpts profile []), CallGetCallerIdentity,
                     LogPrintf ''Token invalid or expired. Attempting SSO login for profile: %s''
                       [ArgStr profile],
                     CallLookPath ''aws'',
                     CallRun [''aws'', ''sso'', ''login'', ''--profile'', profile],
                     CallLoadDefaultConfig (loadOpts profile [])]))
          \<and> (Run env [''aws'', ''sso'', ''login'', ''--profile'', profile] = None
               \<and> LoadDefaultConfig env 1 (loadOpts profile []) = Inr cfg'
             \<longrightarrow> authenticate env profile =
                   (Inr cfg',
                    [CallLoadDefaultConfig (loadOpts profile []), CallGetCallerIdentity,
                     LogPrintf ''Token invalid or expired. Attempting SSO login for profile: %s''
                       [ArgStr profile],
                     CallLookPath ''aws'',
                     CallRun [''aws'', ''sso'', ''login'', ''--profile'', profile],
                     CallLoadDefaultConfig (loadOpts profile [])])
                 \<and> fst (Processing env profile fltr) =
                   (case listParams (DescribeParametersPages env cfg' (searchFilter fltr)) [] of
                      Inl out \<Rightarrow> out
                    | Inr params \<Rightarrow>
                        (case describeInstances (DescribeInstancesPages env cfg') [] of
                           Inl out \<Rightarrow> out
                         | Inr instances \<Rightarrow>
                             Return (Some \<lparr>Parameters = params, Instances = instances\<rparr>) None))))"
proof (intro conjI impI)
  show "logins (snd (Processing env' profile' fltr')) \<le> 1"
    using authenticate_logins [of env' profile'] by (simp add: logins_Processing)
  show "loads (snd (Processing env' profile' fltr')) \<le> 2"
    using authenticate_loads [of env' profile'] by (simp add: loads_Processing)
next
  assume h: "getEndpointFromConfig env profile = []
        \<and> LoadDefaultConfig env 0 (loadOpts profile []) = Inr cfg
        \<and> GetCallerIdentity env cfg = Some err
        \<and> LookPath env ''aws'' = Inr path"
  then have h1: "getEndpointFromConfig env profile = []"
    and h2: "LoadDefaultConfig env 0 (loadOpts profile []) = Inr cfg"
    and h3: "GetCallerIdentity env cfg = Some err"
    and h4: "LookPath env ''aws'' = Inr path"
    by simp_all
  show "filter (\<lambda>e. isRun e \<or> isLoad e) (snd (Processing env profile fltr)) =
            [CallLoadDefaultConfig (loadOpts profile []),
             CallRun [''aws'', ''sso'', ''login'', ''--profile'', profile]] @
            (if Run env [''aws'', ''sso'', ''login'', ''--profile'', profile] = None
             then [CallLoadDefaultConfig (loadOpts profile [])] else [])"
    using authenticate_login [OF h1 h2 h3 h4] by (simp add: filter_Processing)
  show "Unwrap (Errorf ''aws sso login failed: %w'' [ArgErr runErr]) = Some runErr"
    by (rule Unwrap_login_failed)
  {
    assume r: "Run env [''aws'', ''sso'', ''login'', ''--profile'', profile] = Some runErr"
    note a = authenticate_login_fails [OF h1 h2 h3 h4 r]
    then have "fst (authenticate env profile) =
        Inl (Return None (Some (Errorf ''aws sso login failed: %w'' [ArgErr runErr])))"
      by simp
    from Processing_early [OF this] a
    show "Processing env profile fltr =
                   (Return None (Some (Errorf ''aws sso login failed: %w'' [ArgErr runErr])),
                    [CallLoadDefaultConfig (loadOpts profile []), CallGetCallerIdentity,
                     LogPrintf ''Token invalid or expired. Attempting SSO login for profile: %s''
                       [ArgStr profile],
                     CallLookPath ''aws'',
                     CallRun [''aws'', ''sso'', ''login'', ''--profile'', profile]])"
      by simp
  }
  {
    assume r: "Run env [''aws'', ''sso'', ''login'', ''--profile'', profile] = None
               \<and> LoadDefaultConfig env 1 (loadOpts profile []) = Inl loadErr"
    then have r1: "Run env [''aws'', ''sso'', ''login'', ''--profile'', profile] = None"
      and r2: "LoadDefaultConfig env 1 (loadOpts profile []) = Inl loadErr"
      by simp_all
    note a = authenticate_reload_fails [OF h1 h2 h3 h4 r1 r2]
    then have "fst (authenticate env profile) =
        Inl (Return None (Some (Errorf ''unable to reload SDK config after login: %v''
               [ArgErr loadErr])))"
      by simp
    from Processing_early [OF this] a
    show "Processing env profile fltr =
                   (Return None (Some (Errorf ''unable to reload SDK config after login: %v''
                      [ArgErr loadErr])),
                    [CallLoadDefaultConfig (loadOpts profile []), CallGetCallerIdentity,
                     LogPrintf ''Token invalid or expired. Attempting SSO login for profile: %s''
                       [ArgStr profile],
                     CallLookPath ''aws'',
                     CallRun [''aws'', ''sso'', ''login'', ''--profile'', profile],
                     CallLoadDefaultConfig (loadOpts profile [])])"
      by simp
  }
  {
    assume r: "Run env [''aws'', ''sso'', ''login'', ''--profile'', profile] = None
               \<and> LoadDefaultConfig env 1 (loadOpts profile []) = Inr cfg'"
    then have r1: "Run env [''aws'', ''sso'', ''login'', ''--profile'', profile] = None"
      and r2: "LoadDefaultConfig env 1 (loadOpts profile []) = Inr cfg'"
      by simp_all
    show a: "authenticate env profile =
                   (Inr cfg',
                    [CallLoadDefaultConfig (loadOpts profile []), CallGetCallerIdentity,
                     LogPrintf ''Token invalid or expired. Attempting SSO login for profile: %s''
                       [ArgStr profile],
                     CallLookPath ''aws'',
                     CallRun [''aws'', ''sso'', ''login'', ''--profile'', profile],
                     CallLoadDefaultConfig (loadOpts profile [])])"
      by (rule authenticate_reload_ok [OF h1 h2 h3 h4 r1 r2])
    then have "fst (authenticate env profile) = Inr cfg'" by simp
    then show "fst (Processing env profile fltr) =
                   (case listParams (DescribeParametersPages env cfg' (searchFilter fltr)) [] of
                      Inl out \<Rightarrow> out
                    | Inr params \<Rightarrow>
                        (case describeInstances (DescribeInstancesPages env cfg') [] of
                           Inl out \<Rightarrow> out
                         | Inr instances \<Rightarrow>
                             Return (Some \<lparr>Parameters = params, Instances = instances\<rparr>) None))"
      by (rule Processing_fst)
  }
qed

theorem one_login_then_one_rebuild_witness:
  "getEndpointFromConfig world ''dev'' = []
   \<and> GetCallerIdentity world 0 = Some (LibError ''ExpiredToken'')
   \<and> LookPath world ''aws'' = Inr ''/usr/bin/aws''
   \<and> Run world [''aws'', ''sso'', ''login'', ''--profile'', ''dev''] = None
   \<and> LoadDefaultConfig world 1 (loadOpts ''dev'' []) = Inr 1
   \<and> filter (\<lambda>e. isRun e \<or> isLoad e) (snd (Processing world ''dev'' ''prod'')) =
       [CallLoadDefaultConfig [WithSharedConfigProfile ''dev''],
        CallRun [''aws'', ''sso'', ''login'', ''--profile'', ''dev''],
        CallLoadDefaultConfig [WithSharedConfigProfile ''dev'']]
   \<and> fst (authenticate world ''dev'') = Inr 1
   \<and> Run loginFails [''aws'', ''sso'', ''login'', ''--profile'', ''dev''] =
       Some (LibError ''exit status 1'')
   \<and> fst (Processing loginFails ''dev'' ''prod'') =
       Return None (Some (Errorf ''aws sso login failed: %w'' [ArgErr (LibError ''exit status 1'')]))"
proof -
  have h1: "getEndpointFromConfig world ''dev'' = []"
    by (rule world_endpoint_dev)
  have h2: "LoadDefaultConfig world 0 (loadOpts ''dev'' []) = Inr 0"
    by (simp add: world_def)
  have h3: "GetCallerIdentity world 0 = Some (LibError ''ExpiredToken'')"
    by (simp add: world_def)
  have h4: "LookPath world ''aws'' = Inr ''/usr/bin/aws''"
    by (simp add: world_def)
  have h5: "Run world [''aws'', ''sso'', ''login'', ''--profile'', ''dev''] = None"
    by (simp add: world_def)
  have h6: "LoadDefaultConfig world 1 (loadOpts ''dev'' []) = Inr 1"
    by (simp add: world_def)
  have g1: "getEndpointFromConfig loginFails ''dev'' = []"
    by (simp add: loginFails_def world_endpoint_dev)
  have g2: "LoadDefaultConfig loginFails 0 (loadOpts ''dev'' []) = Inr 0"
    by (simp add: loginFails_def world_def)
  have g3: "GetCallerIdentity loginFails 0 = Some (LibError ''ExpiredToken'')"
    by (simp add: loginFails_def world_def)
  have g4: "LookPath loginFails ''aws'' = Inr ''/usr/bin/aws''"
    by (simp add: loginFails_def world_def)
  have g5: "Run loginFails [''aws'', ''sso'', ''login'', ''--profile'', ''dev''] =
       Some (LibError ''exit status 1'')"
    by (simp add: loginFails_def)
  from one_login_then_one_rebuild [of world "''dev''" "''prod''" world "''dev''" 0
      "LibError ''ExpiredToken''" "''/usr/bin/aws''" "''prod''" _ _ 1] h1 h2 h3 h4 h5 h6
  have 1: "filter (\<lambda>e. isRun e \<or> isLoad e) (snd (Processing world ''dev'' ''prod'')) =
       [CallLoadDefaultConfig [WithSharedConfigProfile ''dev''],
        CallRun [''aws'', ''sso'', ''login'', ''--profile'', ''dev''],
        CallLoadDefaultConfig [WithSharedConfigProfile ''dev'']]
      \<and> fst (authenticate world ''dev'') = Inr 1"
    by (simp add: loadOpts_def)
  from one_login_then_one_rebuild [of loginFails "''dev''" "''prod''" loginFails "''dev''" 0
      "LibError ''ExpiredToken''" "''/usr/bin/aws''" "''prod''" "LibError ''exit status 1''"]
    g1 g2 g3 g4 g5
  have 2: "fst (Processing loginFails ''dev'' ''prod'') =
       Return None (Some (Errorf ''aws sso login failed: %w'' [ArgErr (LibError ''exit status 1'')]))"
    by simp
  from h1 h3 h4 h5 h6 g5 1 2 show ?thesis by simp
qed

subsection \<open>Discovery\<close>

text \<open>
  Claim C5. In a run that has passed authentication, a failed page fetch of the parameter
  listing, or of the instance walk after a complete parameter listing, makes the run
  return no result (neither list) and one error that wraps the error of that fetch,
  however many pages came before. A fetch of the instance walk takes place only when the
  pages before it were walked without a fault.
\<close>

theorem page_failure_returns_no_result:
  assumes "fst (authenticate env profile) = Inr cfg"
  shows "(DescribeParametersPages env cfg (searchFilter fltr) = map Inr ps @ Inl err # rest
          \<longrightarrow> fst (Processing env profile fltr) =
                Return None (Some (Errorf ''failed to list params: %w'' [ArgErr err])))
       \<and> (DescribeParametersPages env cfg (searchFilter fltr) = map Inr ps
          \<and> DescribeInstancesPages env cfg = map Inr qs @ Inl err # rest'
          \<and> \<not> list_ex instFaults (allInstances qs)
          \<longrightarrow> fst (Processing env profile fltr) =
                Return None (Some (Errorf ''failed to describe instances: %w'' [ArgErr err])))
       \<and> Unwrap (Errorf ''failed to list params: %w'' [ArgErr err]) = Some err
       \<and> Unwrap (Errorf ''failed to describe instances: %w'' [ArgErr err]) = Some err"
  by (simp add: Processing_fst [OF assms] listParams_fail listParams_ok describeInstances_fail
      Unwrap_list_params Unwrap_describe_instances)

theorem page_failure_returns_no_result_witness:
  "fst (Processing (world\<lparr>DescribeParametersPages := \<lambda>cfg search. failingNamePages\<rparr>)
          ''dev'' ''prod'') =
     Return None (Some (Errorf ''failed to list params: %w''
       [ArgErr (LibError ''ThrottlingException'')]))
   \<and> fst (Processing (world\<lparr>DescribeInstancesPages := \<lambda>cfg. failingInstancePages\<rparr>)
          ''dev'' ''prod'') =
     Return None (Some (Errorf ''failed to describe instances: %w''
       [ArgErr (LibError ''RequestLimitExceeded'')]))"
proof -
  let ?a = "world\<lparr>DescribeParametersPages := \<lambda>cfg search. failingNamePages\<rparr>"
  let ?b = "world\<lparr>DescribeInstancesPages := \<lambda>cfg. failingInstancePages\<rparr>"
  have a: "fst (authenticate ?a ''dev'') = Inr 1"
    by (simp add: world_authenticate_dev)
  have b: "fst (authenticate ?b ''dev'') = Inr 1"
    by (simp add: world_authenticate_dev)
  have pa: "DescribeParametersPages ?a 1 (searchFilter ''prod'') =
      map Inr [\<lparr>PageParameters = [\<lparr>ParameterName = Some ''a''\<rparr>]\<rparr>]
      @ Inl (LibError ''ThrottlingException'')
      # [Inr \<lparr>PageParameters = [\<lparr>ParameterName = Some ''b''\<rparr>]\<rparr>]"
    by (simp add: failingNamePages_def)
  have pb: "DescribeParametersPages ?b 1 (searchFilter ''prod'') =
      map Inr [\<lparr>PageParameters = [\<lparr>ParameterName = Some ''a''\<rparr>, \<lparr>ParameterName = Some ''b''\<rparr>]\<rparr>,
               \<lparr>PageParameters = [\<lparr>ParameterName = Some ''a''\<rparr>]\<rparr>]"
    by (simp add: world_def namePages_def)
  have qb: "DescribeInstancesPages ?b 1 =
      map Inr [\<lparr>Reservations = [\<lparr>ReservationInstances = [webInstance]\<rparr>]\<rparr>]
      @ Inl (LibError ''RequestLimitExceeded'')
      # [Inr \<lparr>Reservations = [\<lparr>ReservationInstances = [bareInstance]\<rparr>]\<rparr>]"
    by (simp add: failingInstancePages_def)
  have nf: "\<not> list_ex instFaults
      (allInstances [\<lparr>Reservations = [\<lparr>ReservationInstances = [webInstance]\<rparr>]\<rparr>])"
    by (simp add: allInstances_def pageInstances_def instFaults_def tagsFault_def
        webInstance_def)
  from page_failure_returns_no_result [OF a, of "''prod''"] pa
  have 1: "fst (Processing ?a ''dev'' ''prod'') =
     Return None (Some (Errorf ''failed to list params: %w''
       [ArgErr (LibError ''ThrottlingException'')]))"
    by blast
  from page_failure_returns_no_result [OF b, of "''prod''"] pb qb nf
  have 2: "fst (Processing ?b ''dev'' ''prod'') =
     Return None (Some (Errorf ''failed to describe instances: %w''
       [ArgErr (LibError ''RequestLimitExceeded'')]))"
    by blast
  from 1 2 show ?thesis by simp
qed

text \<open>
  Claim C6 says that the parameter search returns exactly the names with a non-empty
  identifier. Counterexample: the code tests only that the pointer of a name is not nil,
  so a name that is present and empty is returned too; only the nil one is skipped.
\<close>

theorem empty_name_is_kept:
  "listParams
     [Inr \<lparr>PageParameters = [\<lparr>ParameterName = Some ''a''\<rparr>, \<lparr>ParameterName = Some []\<rparr>,
                             \<lparr>ParameterName = None\<rparr>, \<lparr>ParameterName = Some ''b''\<rparr>]\<rparr>] [] =
   Inr [''a'', [], ''b'']"
  by simp

text \<open>
  Claim C6, amended. The parameter search returns exactly the names that are present
  (pointer not nil), an empty one included, in page and item order, duplicates kept: over
  pages that were all fetched the loop gives \<open>allNames\<close>, which is the list of
  the present names of the items of all pages; the pages "a", "b" and "a" give "a", "b",
  "a"; and the parameter list of every result that a run returns is \<open>allNames\<close>
  of the pages of its listing.
\<close>

theorem parameter_search_keeps_arrival_order:
  "listParams (map Inr ps) [] = Inr (allNames ps)
   \<and> allNames ps =
       map the (filter (\<lambda>n. n \<noteq> None) (map ParameterName (concat (map PageParameters ps))))
   \<and> listParams namePages [] = Inr [''a'', ''b'', ''a'']
   \<and> (fst (authenticate env profile) = Inr cfg
        \<and> fst (Processing env profile fltr) = Return (Some r) None
      \<longrightarrow> (\<exists>pages. DescribeParametersPages env cfg (searchFilter fltr) = map Inr pages
                   \<and> Parameters r = allNames pages))"
proof (intro conjI impI)
  show "listParams (map Inr ps) [] = Inr (allNames ps)"
    using listParams_ok [of ps "[]"] by simp
  show "allNames ps =
       map the (filter (\<lambda>n. n \<noteq> None) (map ParameterName (concat (map PageParameters ps))))"
    by (rule allNames_present)
  show "listParams namePages [] = Inr [''a'', ''b'', ''a'']"
    by (rule world_listParams)
next
  assume h: "fst (authenticate env profile) = Inr cfg
             \<and> fst (Processing env profile fltr) = Return (Some r) None"
  then have a: "fst (authenticate env profile) = Inr cfg"
    and b: "fst (Processing env profile fltr) = Return (Some r) None"
    by simp_all
  from Processing_result [OF a b]
  have "listParams (DescribeParametersPages env cfg (searchFilter fltr)) [] =
             Inr (Parameters r)"
    by simp
  from listParams_Inr [OF this]
  show "\<exists>pages. DescribeParametersPages env cfg (searchFilter fltr) = map Inr pages
               \<and> Parameters r = allNames pages"
    by simp
qed

theorem parameter_search_keeps_arrival_order_witness:
  "fst (authenticate world ''dev'') = Inr 1
   \<and> fst (Processing world ''dev'' ''prod'') =
       Return (Some \<lparr>Parameters = [''a'', ''b'', ''a''],
                     Instances = [\<lparr>Name = ''web'', AMI = ''ami-1''\<rparr>, \<lparr>Name = [], AMI = []\<rparr>]\<rparr>)
         None
   \<and> (\<exists>pages. DescribeParametersPages world 1 (searchFilter ''prod'') = map Inr pages
              \<and> [''a'', ''b'', ''a''] = allNames pages)"
proof -
  let ?r = "\<lparr>Parameters = [''a'', ''b'', ''a''],
             Instances = [\<lparr>Name = ''web'', AMI = ''ami-1''\<rparr>, \<lparr>Name = [], AMI = []\<rparr>]\<rparr>"
  have a: "fst (authenticate world ''dev'') = Inr 1"
    by (rule world_authenticate_dev)
  have b: "fst (Processing world ''dev'' ''prod'') = Return (Some ?r) None"
    by (rule world_Processing_dev)
  from parameter_search_keeps_arrival_order [of "[]" world "''dev''" 1 "''prod''" ?r] a b
  have "\<exists>pages. DescribeParametersPages world 1 (searchFilter ''prod'') = map Inr pages
              \<and> Parameters ?r = allNames pages"
    by blast
  with a b show ?thesis by simp
qed

text \<open>
  Claim C7. Every walk that returns has fetched all its pages, and its records are the
  projections of the instances, one for one and in page, reservation and instance order:
  the name of a record is the value of the first tag with key "Name" (empty without such
  a tag) and its AMI is the image reference (empty when absent). When every tag has its
  key and every "Name" tag its value, the walk of fetched pages returns. The same holds of
  the instance list of every result that a run returns.
\<close>

theorem instance_walk_projects_in_order:
  "(describeInstances pages [] = Inr recs
      \<longrightarrow> (\<exists>qs. pages = map Inr qs \<and> list_all2 projects (allInstances qs) recs))
   \<and> (list_all wellTagged (allInstances qs')
      \<longrightarrow> (\<exists>recs'. describeInstances (map Inr qs') [] = Inr recs'))
   \<and> (fst (authenticate env profile) = Inr cfg
        \<and> fst (Processing env profile fltr) = Return (Some r) None
      \<longrightarrow> (\<exists>qs. DescribeInstancesPages env cfg = map Inr qs
                \<and> list_all2 projects (allInstances qs) (Instances r)))"
proof (intro conjI impI)
  assume "describeInstances pages [] = Inr recs"
  from describeInstances_records [OF this]
  show "\<exists>qs. pages = map Inr qs \<and> list_all2 projects (allInstances qs) recs"
    by simp
next
  assume "list_all wellTagged (allInstances qs')"
  then have "\<not> list_ex instFaults (allInstances qs')"
    by (auto simp: list_all_iff list_ex_iff dest: wellTagged_no_fault)
  then show "\<exists>recs'. describeInstances (map Inr qs') [] = Inr recs'"
    by (rule describeInstances_ok)
next
  assume h: "fst (authenticate env profile) = Inr cfg
             \<and> fst (Processing env profile fltr) = Return (Some r) None"
  then have a: "fst (authenticate env profile) = Inr cfg"
    and b: "fst (Processing env profile fltr) = Return (Some r) None"
    by simp_all
  from Processing_result [OF a b]
  have "describeInstances (DescribeInstancesPages env cfg) [] = Inr (Instances r)"
    by simp
  from describeInstances_records [OF this]
  show "\<exists>qs. DescribeInstancesPages env cfg = map Inr qs
            \<and> list_all2 projects (allInstances qs) (Instances r)"
    by simp
qed

theorem instance_walk_projects_in_order_witness:
  "describeInstances instancePages [] =
     Inr [\<lparr>Name = ''web'', AMI = ''ami-1''\<rparr>, \<lparr>Name = [], AMI = []\<rparr>]
   \<and> list_all wellTagged [webInstance, bareInstance]
   \<and> projects webInstance \<lparr>Name = ''web'', AMI = ''ami-1''\<rparr>
   \<and> projects bareInstance \<lparr>Name = [], AMI = []\<rparr>
   \<and> fst (authenticate world ''dev'') = Inr 1
   \<and> (\<exists>qs. DescribeInstancesPages world 1 = map Inr qs
            \<and> list_all2 projects (allInstances qs)
                 [\<lparr>Name = ''web'', AMI = ''ami-1''\<rparr>, \<lparr>Name = [], AMI = []\<rparr>])"
proof -
  let ?r = "\<lparr>Parameters = [''a'', ''b'', ''a''],
             Instances = [\<lparr>Name = ''web'', AMI = ''ami-1''\<rparr>, \<lparr>Name = [], AMI = []\<rparr>]\<rparr>"
  let ?qs = "[\<lparr>Reservations = [\<lparr>ReservationInstances = [webInstance, bareInstance]\<rparr>]\<rparr>]"
  note t = instance_walk_projects_in_order [of instancePages
      "[\<lparr>Name = ''web'', AMI = ''ami-1''\<rparr>, \<lparr>Name = [], AMI = []\<rparr>]" ?qs
      world "''dev''" 1 "''prod''" ?r]
  have w: "list_all wellTagged [webInstance, bareInstance]"
    by (simp add: wellTagged_def webInstance_def bareInstance_def)
  then have w': "list_all wellTagged (allInstances ?qs)"
    by (simp add: allInstances_def pageInstances_def)
  have p: "projects webInstance \<lparr>Name = ''web'', AMI = ''ami-1''\<rparr>
           \<and> projects bareInstance \<lparr>Name = [], AMI = []\<rparr>"
    by (simp add: projects_def webInstance_def bareInstance_def)
  from t w' have "\<exists>recs'. describeInstances (map Inr ?qs) [] = Inr recs'" by blast
  moreover from t have "\<exists>qs. DescribeInstancesPages world 1 = map Inr qs
            \<and> list_all2 projects (allInstances qs)
                 [\<lparr>Name = ''web'', AMI = ''ami-1''\<rparr>, \<lparr>Name = [], AMI = []\<rparr>]"
    by (simp add: world_authenticate_dev world_Processing_dev)
  ultimately show ?thesis
    using w p by (simp add: world_describeInstances world_authenticate_dev)
qed

subsection \<open>The endpoint lookup\<close>

lemma resolve_code:
  "(let sectionName = (if profile = ''default'' then ''default'' else ''profile '' @ profile);
        section0 = Section cfg sectionName;
        section1 = (if \<not> HasKey section0 ''endpoint_url'' then Section cfg profile else section0)
    in if HasKey section1 ''endpoint_url'' then KeyString section1 ''endpoint_url'' else []) =
   resolveOrdered cfg profile"
  by (auto simp: Let_def Section_def HasKey_def KeyString_def resolveOrdered_def overrideIn_def
      prefixedSection_def split: option.splits)

text \<open>
  Claim C8. The endpoint lookup returns the empty string when the home directory is not
  known and when the file cannot be loaded; otherwise it is the ordered pair of lookups of
  the specification: the section "profile " followed by the profile name ("default" for
  the profile "default") first, the section of the bare profile name when the key is
  absent there. It is a total function, and gives the empty string for every profile for
  which neither section has the key.
\<close>

theorem endpoint_lookup_is_ordered_pair:
  "(UserHomeDir env = Inl e \<longrightarrow> getEndpointFromConfig env profile = [])
   \<and> (UserHomeDir env = Inr home
        \<and> iniLoad env (Join env [home, ''.aws'', ''config'']) = Inl e'
      \<longrightarrow> getEndpointFromConfig env profile = [])
   \<and> (UserHomeDir env = Inr home
        \<and> iniLoad env (Join env [home, ''.aws'', ''config'']) = Inr cfg
      \<longrightarrow> getEndpointFromConfig env profile = resolveOrdered cfg profile
          \<and> (overrideIn cfg (prefixedSection profile) = None \<and> overrideIn cfg profile = None
             \<longrightarrow> getEndpointFromConfig env profile = []))"
proof (intro conjI impI)
  assume "UserHomeDir env = Inl e"
  then show "getEndpointFromConfig env profile = []"
    by (simp add: getEndpointFromConfig_def)
next
  assume "UserHomeDir env = Inr home
          \<and> iniLoad env (Join env [home, ''.aws'', ''config'']) = Inl e'"
  then show "getEndpointFromConfig env profile = []"
    by (simp add: getEndpointFromConfig_def)
next
  assume h: "UserHomeDir env = Inr home
          \<and> iniLoad env (Join env [home, ''.aws'', ''config'']) = Inr cfg"
  then show r: "getEndpointFromConfig env profile = resolveOrdered cfg profile"
    using resolve_code [of profile cfg] by (simp add: getEndpointFromConfig_def)
  assume "overrideIn cfg (prefixedSection profile) = None \<and> overrideIn cfg profile = None"
  with r show "getEndpointFromConfig env profile = []"
    by (simp add: resolveOrdered_def)
qed

theorem endpoint_lookup_is_ordered_pair_witness:
  "UserHomeDir world = Inr ''/home/op''
   \<and> iniLoad world (Join world [''/home/op'', ''.aws'', ''config'']) = Inr localstackIni
   \<and> overrideIn localstackIni (prefixedSection ''dev'') = None
   \<and> overrideIn localstackIni ''dev'' = None
   \<and> getEndpointFromConfig world ''dev'' = []
   \<and> getEndpointFromConfig world ''localstack'' = resolveOrdered localstackIni ''localstack''
   \<and> resolveOrdered localstackIni ''localstack'' = ''http://localhost:4566''
   \<and> resolveOrdered [''localstack'' \<mapsto> [''endpoint_url'' \<mapsto> ''http://localhost:4566'']]
         ''localstack'' = ''http://localhost:4566''
   \<and> getEndpointFromConfig (world\<lparr>UserHomeDir := Inl (LibError ''$HOME is not defined'')\<rparr>)
         ''localstack'' = []
   \<and> getEndpointFromConfig (world\<lparr>iniLoad := \<lambda>path. Inl (LibError ''open: no such file or directory'')\<rparr>)
         ''localstack'' = []"
proof -
  have h1: "UserHomeDir world = Inr ''/home/op''"
    by (simp add: world_def)
  have h2: "iniLoad world (Join world [''/home/op'', ''.aws'', ''config'']) = Inr localstackIni"
    by (simp add: world_def)
  have h3: "overrideIn localstackIni (prefixedSection ''dev'') = None
            \<and> overrideIn localstackIni ''dev'' = None"
    by (simp add: overrideIn_def prefixedSection_def localstackIni_def)
  have r1: "resolveOrdered localstackIni ''localstack'' = ''http://localhost:4566''"
    by (simp add: resolveOrdered_def overrideIn_def prefixedSection_def localstackIni_def)
  have r2: "resolveOrdered [''localstack'' \<mapsto> [''endpoint_url'' \<mapsto> ''http://localhost:4566'']]
         ''localstack'' = ''http://localhost:4566''"
    by (simp add: resolveOrdered_def overrideIn_def prefixedSection_def)
  let ?a = "world\<lparr>UserHomeDir := Inl (LibError ''$HOME is not defined'')\<rparr>"
  let ?b = "world\<lparr>iniLoad := \<lambda>path. Inl (LibError ''open: no such file or directory'')\<rparr>"
  have a: "UserHomeDir ?a = Inl (LibError ''$HOME is not defined'')"
    by simp
  have b: "UserHomeDir ?b = Inr ''/home/op''
           \<and> iniLoad ?b (Join ?b [''/home/op'', ''.aws'', ''config'']) =
               Inl (LibError ''open: no such file or directory'')"
    by (simp add: world_def)
  from endpoint_lookup_is_ordered_pair [of world _ "''dev''" "''/home/op''" _ localstackIni]
    h1 h2 h3
  have 1: "getEndpointFromConfig world ''dev'' = []" by blast
  from endpoint_lookup_is_ordered_pair [of world _ "''localstack''" "''/home/op''" _ localstackIni]
    h1 h2
  have 2: "getEndpointFromConfig world ''localstack'' = resolveOrdered localstackIni ''localstack''"
    by blast
  from endpoint_lookup_is_ordered_pair [of ?a "LibError ''$HOME is not defined''" "''localstack''"] a
  have 3: "getEndpointFromConfig ?a ''localstack'' = []" by blast
  from endpoint_lookup_is_ordered_pair [of ?b _ "''localstack''" "''/home/op''"
      "LibError ''open: no such file or directory''"] b
  have 4: "getEndpointFromConfig ?b ''localstack'' = []" by blast
  from h1 h2 h3 r1 r2 1 2 3 4 show ?thesis by simp
qed

subsection \<open>Faults of the instance walk\<close>

text \<open>
  Claim C10 says that an instance bearing a tag with an absent key makes the walk fault,
  every key being dereferenced. Counterexample: the scan of the tags stops at the first
  "Name" tag, so a tag without a key that comes after it is never read, and the walk
  returns the record.
\<close>

theorem nil_key_after_name_is_not_read:
  "\<not> wellTagged nilAfterName
   \<and> describeInstances [Inr \<lparr>Reservations = [\<lparr>ReservationInstances = [nilAfterName]\<rparr>]\<rparr>] [] =
       Inr [\<lparr>Name = ''web'', AMI = []\<rparr>]"
  by (simp add: wellTagged_def nilAfterName_def)

text \<open>
  Claim C10, amended. The walk faults exactly when some instance on a page that comes
  before the first failed fetch has, as its first tag whose key is absent or equal to
  "Name", a tag with an absent key or an absent value; tags after the first "Name" tag are
  not read. So the walk does not fault when every tag of those instances has its key and
  every "Name" tag its value, and a tag list that begins with a tag without key, or with a
  "Name" tag without value, faults.
\<close>

theorem walk_faults_where_the_scan_meets_nil:
  "(describeInstances pages [] = Inl Panic
      \<longleftrightarrow> list_ex instFaults (allInstances (beforeFailure pages)))
   \<and> (list_all wellTagged (allInstances (beforeFailure pages))
      \<longrightarrow> describeInstances pages [] \<noteq> Inl Panic)
   \<and> (tagLoop tags [] = Inl Panic \<longleftrightarrow> tagsFault tags)
   \<and> (Key tag = None \<or> Key tag = Some ''Name'' \<and> Value tag = None
      \<longrightarrow> tagLoop (tag # tags) [] = Inl Panic)"
proof (intro conjI impI)
  show f: "describeInstances pages [] = Inl Panic
      \<longleftrightarrow> list_ex instFaults (allInstances (beforeFailure pages))"
    by (rule describeInstances_fault)
  show "tagLoop tags [] = Inl Panic \<longleftrightarrow> tagsFault tags"
    by (rule tagLoop_fault)
  show "describeInstances pages [] \<noteq> Inl Panic"
    if "list_all wellTagged (allInstances (beforeFailure pages))"
    using that f by (auto simp: list_all_iff list_ex_iff dest: wellTagged_no_fault)
  show "tagLoop (tag # tags) [] = Inl Panic"
    if "Key tag = None \<or> Key tag = Some ''Name'' \<and> Value tag = None"
    using that by auto
qed

theorem walk_faults_where_the_scan_meets_nil_witness:
  "list_all wellTagged (allInstances (beforeFailure instancePages))
   \<and> describeInstances instancePages [] \<noteq> Inl Panic
   \<and> Key \<lparr>Key = None, Value = Some ''web''\<rparr> = None
   \<and> tagLoop [\<lparr>Key = None, Value = Some ''web''\<rparr>] [] = Inl Panic
   \<and> describeInstances
        [Inr \<lparr>Reservations = [\<lparr>ReservationInstances =
           [\<lparr>Tags = [\<lparr>Key = Some ''Name'', Value = None\<rparr>], ImageId = Some ''ami-1''\<rparr>]\<rparr>]\<rparr>] [] =
       Inl Panic"
proof -
  have w: "list_all wellTagged (allInstances (beforeFailure instancePages))"
    by (simp add: instancePages_def allInstances_def pageInstances_def wellTagged_def
        webInstance_def bareInstance_def)
  from walk_faults_where_the_scan_meets_nil [of instancePages] w
  have 1: "describeInstances instancePages [] \<noteq> Inl Panic" by blast
  have k: "Key \<lparr>Key = None, Value = Some ''web''\<rparr> = None" by simp
  from walk_faults_where_the_scan_meets_nil
      [where tag = "\<lparr>Key = None, Value = Some ''web''\<rparr>" and tags = "[]"] k
  have 2: "tagLoop [\<lparr>Key = None, Value = Some ''web''\<rparr>] [] = Inl Panic" by blast
  let ?p = "[Inr \<lparr>Reservations = [\<lparr>ReservationInstances =
           [\<lparr>Tags = [\<lparr>Key = Some ''Name'', Value = None\<rparr>], ImageId = Some ''ami-1''\<rparr>]\<rparr>]\<rparr>]"
  have "list_ex instFaults (allInstances (beforeFailure ?p))"
    by (simp add: allInstances_def pageInstances_def instFaults_def tagsFault_def)
  with walk_faults_where_the_scan_meets_nil [of ?p]
  have 3: "describeInstances ?p [] = Inl Panic" by blast
  from w 1 k 2 3 show ?thesis by simp
qed

end
